theory Spec2Isabelle
  imports Main "HOL-Library.AList" "HOL-Library.Char_ord" "HOL-Library.List_Lexorder"
begin

section \<open>The banner ledger of \<^verbatim>\<open>banner_ledger.py\<close>\<close>

text \<open>
  A shallow embedding of \<^verbatim>\<open>src/banner_ledger.py\<close>. Python \<^verbatim>\<open>str\<close> values are
  \<^typ>\<open>string\<close>; a \<^typ>\<open>char\<close> stands for a code point below 256. \<^verbatim>\<open>Optional[str]\<close> is
  \<^typ>\<open>string option\<close>, and Python's truth test on it (\<^verbatim>\<open>None\<close> and \<^verbatim>\<open>""\<close> are false) is
  \<open>truthy\<close>. Ordered dictionaries are association lists with distinct keys
  (\<^const>\<open>AList.update\<close> assigns in place or appends, as \<^verbatim>\<open>d[k] = v\<close> does,
  and \<^const>\<open>map_of\<close> looks a key up).
\<close>

subsection \<open>Strings\<close>

type_synonym bytes = string

definition truthy :: "string option \<Rightarrow> bool" where
  "truthy s = (case s of None \<Rightarrow> False | Some v \<Rightarrow> v \<noteq> [])"

definition or_empty :: "string option \<Rightarrow> string" where
  \<comment> \<open>\<^verbatim>\<open>s or ""\<close>\<close>
  "or_empty s = (case s of None \<Rightarrow> [] | Some v \<Rightarrow> v)"

definition isspace :: "char \<Rightarrow> bool" where
  \<comment> \<open>\<^verbatim>\<open>str.isspace\<close> on code points below 256\<close>
  "isspace c = (let n = (of_char c :: nat)
     in (9 \<le> n \<and> n \<le> 13) \<or> (28 \<le> n \<and> n \<le> 32) \<or> n = 133 \<or> n = 160)"

definition strip :: "string \<Rightarrow> string" where
  "strip s = rev (dropWhile isspace (rev (dropWhile isspace s)))"

definition lower_char :: "char \<Rightarrow> char" where
  \<comment> \<open>\<^verbatim>\<open>str.lower\<close> on one code point below 256\<close>
  "lower_char c = (let n = (of_char c :: nat)
     in if (65 \<le> n \<and> n \<le> 90) \<or> (192 \<le> n \<and> n \<le> 222 \<and> n \<noteq> 215)
        then char_of (n + 32) else c)"

definition lower :: "string \<Rightarrow> string" where
  "lower s = map lower_char s"

fun startswith :: "string \<Rightarrow> string \<Rightarrow> bool" where
  "startswith s [] = True"
| "startswith [] (p # ps) = False"
| "startswith (c # cs) (p # ps) = (c = p \<and> startswith cs ps)"

fun contains :: "string \<Rightarrow> string \<Rightarrow> bool" where
  \<comment> \<open>\<^verbatim>\<open>p in s\<close>\<close>
  "contains [] p = (p = [])"
| "contains (c # cs) p = (startswith (c # cs) p \<or> contains cs p)"

definition endswith :: "string \<Rightarrow> string \<Rightarrow> bool" where
  "endswith s p = startswith (rev s) (rev p)"

fun split :: "char \<Rightarrow> string \<Rightarrow> string list" where
  \<comment> \<open>\<^verbatim>\<open>s.split(sep)\<close> for a one-character separator\<close>
  "split sep [] = [[]]"
| "split sep (c # cs) =
     (if c = sep then [] # split sep cs
      else (case split sep cs of [] \<Rightarrow> [[c]] | p # ps \<Rightarrow> (c # p) # ps))"

fun join :: "string \<Rightarrow> string list \<Rightarrow> string" where
  \<comment> \<open>\<^verbatim>\<open>sep.join(xs)\<close>\<close>
  "join sep [] = []"
| "join sep [x] = x"
| "join sep (x # y # ys) = x @ sep @ join sep (y # ys)"

definition replace_char :: "char \<Rightarrow> char \<Rightarrow> string \<Rightarrow> string" where
  "replace_char a b s = map (\<lambda>c. if c = a then b else c) s"

fun digit_char :: "nat \<Rightarrow> char" where
  "digit_char n = char_of (48 + n mod 10)"

fun str_nat :: "nat \<Rightarrow> string" where
  \<comment> \<open>\<^verbatim>\<open>str(n)\<close> for a non-negative integer\<close>
  "str_nat n = (if n < 10 then [digit_char n] else str_nat (n div 10) @ [digit_char n])"

declare str_nat.simps [simp del]

subsection \<open>Collaborators outside the repository\<close>

datatype error = DecodeError | KeyError | ValueError | StoreError

text \<open>
  The libraries and the process environment the module reads, passed explicitly:
  \<^item> \<open>md5_hexdigest\<close> is \<^verbatim>\<open>hashlib.md5(b).hexdigest()\<close>;
  \<^item> \<open>image_phash\<close> is \<^verbatim>\<open>str(imagehash.phash(Image.open(io.BytesIO(b)).convert("RGB")))\<close>,
    which raises when the bytes are not an image that PIL can decode;
  \<^item> \<open>hash_distance\<close> is \<^verbatim>\<open>imagehash.hex_to_hash(a) - imagehash.hex_to_hash(b)\<close>, on the
    hashes the ledger stores;
  \<^item> \<open>tldextract\<close> is the optional module of that name (\<^verbatim>\<open>None\<close> when its import failed);
    on a host it yields \<^verbatim>\<open>(subdomain, domain, suffix)\<close>;
  \<^item> \<open>phash_dist_setting\<close> and \<open>public_base_url\<close> are the environment variables
    \<^verbatim>\<open>BANNER_LEDGER_PHASH_DIST\<close> (as an integer) and \<^verbatim>\<open>PUBLIC_BASE_URL\<close>;
  \<^item> \<open>clock_today\<close> is \<^verbatim>\<open>datetime.now().strftime("%Y-%m-%d")\<close>.
\<close>

record environ =
  md5_hexdigest :: "bytes \<Rightarrow> string"
  image_phash :: "bytes \<Rightarrow> error + string"
  hash_distance :: "string \<Rightarrow> string \<Rightarrow> int"
  tldextract :: "(string \<Rightarrow> string \<times> string \<times> string) option"
  phash_dist_setting :: "int option"
  public_base_url :: "string option"
  clock_today :: string

definition MAX_HASH_DISTANCE :: "environ \<Rightarrow> int" where
  "MAX_HASH_DISTANCE env = (case phash_dist_setting env of None \<Rightarrow> 6 | Some n \<Rightarrow> n)"

definition today :: "environ \<Rightarrow> string" where
  "today env = clock_today env"

definition md5_short :: "environ \<Rightarrow> bytes \<Rightarrow> string" where
  "md5_short env b = take 10 (md5_hexdigest env b)"

definition phash_hex :: "environ \<Rightarrow> bytes \<Rightarrow> error + string" where
  "phash_hex env b = image_phash env b"

subsection \<open>\<^verbatim>\<open>urllib.parse.urlparse\<close>: the network location\<close>

text \<open>
  \<^verbatim>\<open>urlparse\<close> belongs to Python's standard library. Its \<^verbatim>\<open>netloc\<close> component is
  modelled after CPython's \<^verbatim>\<open>urlsplit\<close>: leading C0 controls and spaces are dropped, tab,
  carriage return and line feed are removed, a scheme (a letter, then letters, digits,
  \<^verbatim>\<open>+\<close>, \<^verbatim>\<open>-\<close>, \<^verbatim>\<open>.\<close>, up to the first colon) is split off, and if the rest starts with
  \<^verbatim>\<open>//\<close> the network location runs up to the first \<^verbatim>\<open>/\<close>, \<^verbatim>\<open>?\<close> or \<^verbatim>\<open>#\<close>. A network
  location with one square bracket but not the other raises \<^verbatim>\<open>ValueError\<close>. The further
  checks of recent versions (the text between the brackets is an IP literal; a non-ASCII
  network location has no delimiter after normalisation) concern bracketed and non-ASCII
  hosts only and are not modelled.
\<close>

definition ascii_alpha :: "char \<Rightarrow> bool" where
  "ascii_alpha c = (let n = (of_char c :: nat) in (65 \<le> n \<and> n \<le> 90) \<or> (97 \<le> n \<and> n \<le> 122))"

definition ascii_digit :: "char \<Rightarrow> bool" where
  "ascii_digit c = (let n = (of_char c :: nat) in 48 \<le> n \<and> n \<le> 57)"

definition scheme_char :: "char \<Rightarrow> bool" where
  "scheme_char c = (ascii_alpha c \<or> ascii_digit c \<or> c = CHR ''+'' \<or> c = CHR ''-'' \<or> c = CHR ''.'')"

definition c0_or_space :: "char \<Rightarrow> bool" where
  "c0_or_space c = ((of_char c :: nat) \<le> 32)"

definition unsafe_url_char :: "char \<Rightarrow> bool" where
  "unsafe_url_char c = (c = CHR 0x09 \<or> c = CHR 0x0D \<or> c = CHR 0x0A)"

definition netloc_delim :: "char \<Rightarrow> bool" where
  "netloc_delim c = (c = CHR ''/'' \<or> c = CHR ''?'' \<or> c = CHR ''#'')"

definition after_scheme :: "string \<Rightarrow> string" where
  \<comment> \<open>the URL without its scheme and colon, when it has a scheme\<close>
  "after_scheme url =
     (let pre = takeWhile (\<lambda>c. c \<noteq> CHR '':'') url
      in if length pre < length url \<and> pre \<noteq> [] \<and> ascii_alpha (hd pre) \<and> list_all scheme_char pre
         then drop (length pre + 1) url else url)"

definition urlparse_netloc :: "string \<Rightarrow> error + string" where
  "urlparse_netloc url0 =
     (let url = filter (\<lambda>c. \<not> unsafe_url_char c) (dropWhile c0_or_space url0);
          rest = after_scheme url;
          netloc = (if take 2 rest = ''//'' then takeWhile (\<lambda>c. \<not> netloc_delim c) (drop 2 rest)
                    else [])
      in if (CHR ''['' \<in> set netloc) \<noteq> (CHR '']'' \<in> set netloc) then Inl ValueError
         else Inr netloc)"



subsection \<open>Hosts and registrable domains\<close>

definition AD_HOST_SKIP :: "string list" where
  "AD_HOST_SKIP = [''boost.mn'', ''edge.boost.mn'', ''exchange.boost.mn'',
     ''doubleclick.net'', ''googlesyndication.com'', ''adservice.google.com'']"

definition host_from_url :: "string option \<Rightarrow> string" where
  "host_from_url url =
     (if \<not> truthy url then []
      else (case urlparse_netloc (the url) of Inr n \<Rightarrow> lower n | Inl e \<Rightarrow> []))"

definition host_from_hint :: "string option \<Rightarrow> string" where
  "host_from_hint hint =
     (if \<not> truthy hint then []
      else let s = lower (strip (the hint))
           in if s = [] then []
              else if contains s ''://'' \<or> startswith s ''//''
              then (case urlparse_netloc (if contains s ''://'' then s else ''http:'' @ s) of
                      Inr h \<Rightarrow> lower h
                    | Inl e \<Rightarrow> s)
              else s)"

definition last_two_labels :: "string \<Rightarrow> string" where
  "last_two_labels host =
     (let parts = split (CHR ''.'') host
      in if 2 \<le> length parts then join ''.'' (drop (length parts - 2) parts) else host)"

definition etld1_from_host :: "environ \<Rightarrow> string \<Rightarrow> string" where
  "etld1_from_host env host =
     (if host = [] then []
      else (case tldextract env of
              None \<Rightarrow> last_two_labels host
            | Some extract \<Rightarrow>
                (case extract host of (subdomain, domain, suffix) \<Rightarrow>
                   if domain \<noteq> [] \<and> suffix \<noteq> [] then domain @ ''.'' @ suffix
                   else last_two_labels host)))"

definition choose_advertiser ::
  "environ \<Rightarrow> string option \<Rightarrow> string option \<Rightarrow> string option \<Rightarrow> string \<times> string" where
  "choose_advertiser env advertiser_hint click_url page_url =
     (let page_dom = (if truthy page_url then etld1_from_host env (host_from_url page_url) else []);
          hint_host = host_from_hint advertiser_hint;
          hint_etld1 = etld1_from_host env hint_host;
          host = host_from_url click_url;
          etld1 = etld1_from_host env host
      in if hint_host \<noteq> [] \<and> hint_etld1 \<noteq> [] \<and> hint_etld1 \<notin> set AD_HOST_SKIP
            \<and> hint_etld1 \<noteq> page_dom
         then (hint_host, hint_etld1)
         else if host \<noteq> [] \<and> etld1 \<noteq> [] \<and> etld1 \<notin> set AD_HOST_SKIP \<and> etld1 \<noteq> page_dom
         then (host, etld1)
         else ([], []))"

text \<open>
  The acceptance rule of the advertiser chooser in the words of its description: a
  registrable domain is accepted if it is non-empty, not in the denylist, and differs from
  the registrable domain of the hosting page.
\<close>

definition page_domain_of :: "environ \<Rightarrow> string option \<Rightarrow> string" where
  "page_domain_of env page = etld1_from_host env (host_from_url page)"

definition acceptable :: "string \<Rightarrow> string \<Rightarrow> bool" where
  "acceptable page_dom domain =
     (domain \<noteq> [] \<and> domain \<notin> set AD_HOST_SKIP \<and> domain \<noteq> page_dom)"

subsection \<open>Rows and the ledger\<close>

type_synonym row = "(string \<times> string) list"

definition LEDGER_FIELDS :: "string list" where
  "LEDGER_FIELDS = [''banner_id'', ''site'', ''first_seen_date'', ''last_seen_date'',
     ''days_seen'', ''seen_dates'',
     ''example_path'', ''example_rel'', ''example_url'',
     ''md5'', ''phash'', ''matches'',
     ''advertiser_host'', ''advertiser_domain'', ''source_host'', ''iframe_host'', ''page_domain'',
     ''advertiser_hosts_all'', ''advertiser_domains_all'']"

definition get :: "row \<Rightarrow> string \<Rightarrow> string" where
  \<comment> \<open>\<^verbatim>\<open>row.get(k) or ""\<close>\<close>
  "get r k = or_empty (map_of r k)"

definition setdefault :: "row \<Rightarrow> string \<Rightarrow> string \<Rightarrow> row" where
  "setdefault r k v = (case map_of r k of None \<Rightarrow> r @ [(k, v)] | Some w \<Rightarrow> r)"

definition backfill :: "row \<Rightarrow> row" where
  \<comment> \<open>\<^verbatim>\<open>for k in LEDGER_FIELDS: row.setdefault(k, "")\<close>\<close>
  "backfill r = foldl (\<lambda>r k. setdefault r k []) r LEDGER_FIELDS"

definition add_unique :: "row \<Rightarrow> string \<Rightarrow> string \<Rightarrow> row" where
  "add_unique r key v =
     (if v = [] then r
      else let parts = filter (\<lambda>p. p \<noteq> []) (split (CHR '';'') (get r key));
               parts' = (if v \<in> set parts then parts else parts @ [v])
           in AList.update key (join '';'' parts') r)"

definition public_url_from_rel :: "environ \<Rightarrow> string \<Rightarrow> string" where
  "public_url_from_rel env example_rel =
     (let base = strip (or_empty (public_base_url env))
      in if base = [] \<or> example_rel = [] then []
         else (if endswith base ''/'' then base else base @ ''/'')
              @ replace_char (CHR 0x5C) (CHR ''/'') example_rel)"

record ledger =
  rows :: "(string \<times> row) list"
  by_md5 :: "(string \<times> string) list"
  by_phash :: "(string \<times> string) list"

text \<open>
  The durable store as \<^verbatim>\<open>_load\<close> and \<^verbatim>\<open>save\<close> see it: no file at the path, a file
  that \<^verbatim>\<open>open\<close> or the CSV reader rejects with an exception (text that is not UTF-8, say), or
  a table, given by the dictionaries that \<^verbatim>\<open>csv.DictReader\<close> yields for its data lines. A
  column absent from the header is an absent key.
\<close>

datatype store = Missing | Unreadable | Csv "row list"

definition empty_ledger :: ledger where
  "empty_ledger = \<lparr>rows = [], by_md5 = [], by_phash = []\<rparr>"

definition load_row :: "ledger \<Rightarrow> row \<Rightarrow> ledger" where
  \<comment> \<open>the body of the loop of \<^verbatim>\<open>_load\<close>\<close>
  "load_row L r =
     (let bid = get r ''banner_id''
      in if bid = [] then L
         else let r1 = backfill r;
                  L1 = L\<lparr>rows := AList.update bid r1 (rows L)\<rparr>;
                  L2 = (if get r1 ''md5'' \<noteq> []
                        then L1\<lparr>by_md5 := AList.update (get r1 ''md5'') bid (by_md5 L1)\<rparr> else L1)
              in if get r1 ''phash'' \<noteq> []
                 then L2\<lparr>by_phash := AList.update (get r1 ''phash'') bid (by_phash L2)\<rparr> else L2)"

definition load :: "store \<Rightarrow> ledger \<Rightarrow> error + ledger" where
  "load st L = (case st of
       Missing \<Rightarrow> Inr L
     | Unreadable \<Rightarrow> Inl StoreError
     | Csv rs \<Rightarrow> Inr (foldl load_row L rs))"

definition BannerLedger :: "store \<Rightarrow> error + ledger" where
  \<comment> \<open>the constructor\<close>
  "BannerLedger st = load st empty_ledger"

definition alloc_banner_id :: "string \<Rightarrow> string" where
  "alloc_banner_id md5s = ''bn_'' @ md5s"

definition phash_dist :: "environ \<Rightarrow> string \<Rightarrow> string \<Rightarrow> int" where
  "phash_dist env a_hex b_hex = hash_distance env a_hex b_hex"

fun scan_near :: "environ \<Rightarrow> string \<Rightarrow> (string \<times> row) list \<Rightarrow> string option \<times> int
    \<Rightarrow> string option \<times> int" where
  \<comment> \<open>the loop of \<^verbatim>\<open>_find_by_phash_near\<close>, on \<^verbatim>\<open>(best_id, best_dist)\<close>\<close>
  "scan_near env phash [] best = best"
| "scan_near env phash ((bid, r) # rest) (best_id, best_dist) =
     (let rph = get r ''phash''
      in if rph = [] then scan_near env phash rest (best_id, best_dist)
         else let d = phash_dist env phash rph
              in if d < best_dist then scan_near env phash rest (Some bid, d)
                 else scan_near env phash rest (best_id, best_dist))"

definition find_by_phash_near :: "environ \<Rightarrow> ledger \<Rightarrow> string \<Rightarrow> string option" where
  "find_by_phash_near env L phash =
     (case map_of (by_phash L) phash of
        Some bid \<Rightarrow> Some bid
      | None \<Rightarrow>
          (case scan_near env phash (rows L) (None, 10 ^ 9) of
             (best_id, best_dist) \<Rightarrow>
               if truthy best_id \<and> best_dist \<le> MAX_HASH_DISTANCE env then best_id else None))"

subsection \<open>Observing an image\<close>

record observation =
  site :: string
  example_path :: string
  example_rel :: "string option"
  seen_date :: "string option"
  click_url :: "string option"
  asset_url :: "string option"
  page_url :: "string option"
  iframe_src :: "string option"
  advertiser_hint :: "string option"

definition new_row :: "observation \<Rightarrow> string \<Rightarrow> string \<Rightarrow> string \<Rightarrow> string \<Rightarrow> row" where
  \<comment> \<open>the dictionary literal of the \<^verbatim>\<open>new\<close> branch\<close>
  "new_row obs seen bid md5s ph =
     [(''banner_id'', bid), (''site'', site obs),
      (''first_seen_date'', seen), (''last_seen_date'', seen),
      (''days_seen'', ''1''), (''seen_dates'', seen),
      (''example_path'', example_path obs), (''example_rel'', or_empty (example_rel obs)),
      (''example_url'', []),
      (''md5'', md5s), (''phash'', ph), (''matches'', ''new''),
      (''advertiser_host'', []), (''advertiser_domain'', []),
      (''source_host'', []), (''iframe_host'', []), (''page_domain'', []),
      (''advertiser_hosts_all'', []), (''advertiser_domains_all'', [])]"

definition select_record ::
  "environ \<Rightarrow> ledger \<Rightarrow> observation \<Rightarrow> string \<Rightarrow> string \<Rightarrow> string \<Rightarrow> string \<times> string \<times> ledger" where
  \<comment> \<open>the classification: \<^verbatim>\<open>(bid, mtype)\<close> and the ledger, with the new row if one was made\<close>
  "select_record env L obs seen md5s ph =
     (case map_of (by_md5 L) md5s of
        Some bid \<Rightarrow> (bid, ''exact'', L)
      | None \<Rightarrow>
          (let near_id = find_by_phash_near env L ph
           in if truthy near_id then (the near_id, ''near'', L)
              else let bid = alloc_banner_id md5s
                   in (bid, ''new'',
                       L\<lparr>rows := AList.update bid (new_row obs seen bid md5s ph) (rows L)\<rparr>)))"

definition merge_dates :: "string \<Rightarrow> row \<Rightarrow> row" where
  "merge_dates seen r =
     (let r1 = AList.update ''first_seen_date''
                 (min (if get r ''first_seen_date'' \<noteq> [] then get r ''first_seen_date'' else seen) seen) r;
          r2 = AList.update ''last_seen_date''
                 (max (if get r1 ''last_seen_date'' \<noteq> [] then get r1 ''last_seen_date'' else seen) seen) r1;
          prev = insert seen (set (filter (\<lambda>p. p \<noteq> []) (split (CHR '';'') (get r2 ''seen_dates''))));
          r3 = AList.update ''seen_dates'' (join '';'' (sorted_list_of_set prev)) r2
      in AList.update ''days_seen'' (str_nat (card prev)) r3)"

definition merge_example :: "environ \<Rightarrow> observation \<Rightarrow> row \<Rightarrow> row" where
  "merge_example env obs r =
     (let r1 = (if get r ''example_path'' = [] then AList.update ''example_path'' (example_path obs) r
                else r)
      in if truthy (example_rel obs)
         then AList.update ''example_url'' (public_url_from_rel env (the (example_rel obs)))
                (AList.update ''example_rel'' (the (example_rel obs)) r1)
         else r1)"

definition merge_attribution :: "environ \<Rightarrow> observation \<Rightarrow> row \<Rightarrow> row" where
  "merge_attribution env obs r =
     (case choose_advertiser env (advertiser_hint obs) (click_url obs) (page_url obs) of
        (adv_host, adv_domain) \<Rightarrow>
          (let r1 = (if adv_host \<noteq> [] then AList.update ''advertiser_host'' adv_host r else r);
               r2 = (if adv_domain \<noteq> [] then AList.update ''advertiser_domain'' adv_domain r1 else r1);
               r3 = add_unique r2 ''advertiser_hosts_all'' adv_host
           in add_unique r3 ''advertiser_domains_all'' adv_domain))"

definition merge_hosts :: "environ \<Rightarrow> observation \<Rightarrow> row \<Rightarrow> row" where
  "merge_hosts env obs r =
     (let src_host = host_from_url (asset_url obs);
          r1 = (if src_host \<noteq> [] \<and> get r ''source_host'' = []
                then AList.update ''source_host'' src_host r else r);
          ifh = host_from_url (iframe_src obs);
          r2 = (if truthy (iframe_src obs) \<and> ifh \<noteq> [] \<and> get r1 ''iframe_host'' = []
                then AList.update ''iframe_host'' ifh r1 else r1);
          pg_host = host_from_url (page_url obs);
          pg_dom = (if pg_host \<noteq> [] then etld1_from_host env pg_host else [])
      in if pg_dom \<noteq> [] \<and> get r2 ''page_domain'' = []
         then AList.update ''page_domain'' pg_dom r2 else r2)"

definition refresh_prints :: "string \<Rightarrow> string \<Rightarrow> string \<Rightarrow> row \<Rightarrow> row" where
  "refresh_prints md5s ph mtype r =
     AList.update ''matches'' mtype (AList.update ''phash'' ph (AList.update ''md5'' md5s r))"

definition merge_row ::
  "environ \<Rightarrow> observation \<Rightarrow> string \<Rightarrow> string \<Rightarrow> string \<Rightarrow> string \<Rightarrow> row \<Rightarrow> row" where
  \<comment> \<open>what \<^verbatim>\<open>observe_image\<close> does to the selected row, in the order of the source\<close>
  "merge_row env obs seen md5s ph mtype r =
     refresh_prints md5s ph mtype
       (merge_hosts env obs
         (merge_attribution env obs
           (merge_example env obs
             (merge_dates seen
               (AList.update ''site'' (if get r ''site'' \<noteq> [] then get r ''site'' else site obs) r)))))"

definition observe_image ::
  "environ \<Rightarrow> ledger \<Rightarrow> bytes \<Rightarrow> observation \<Rightarrow> (error + string \<times> string) \<times> ledger" where
  \<comment> \<open>the result (an exception, or \<^verbatim>\<open>(banner_id, match_type)\<close>) and the ledger after the call\<close>
  "observe_image env L img_bytes obs =
     (let seen = (if truthy (seen_date obs) then the (seen_date obs) else today env);
          md5s = md5_short env img_bytes
      in case phash_hex env img_bytes of
           Inl e \<Rightarrow> (Inl e, L)
         | Inr ph \<Rightarrow>
             (case select_record env L obs seen md5s ph of
                (bid, mtype, L1) \<Rightarrow>
                  (case map_of (rows L1) bid of
                     None \<Rightarrow> (Inl KeyError, L1)
                   | Some r \<Rightarrow>
                       (Inr (bid, mtype),
                        L1\<lparr>rows := AList.update bid (merge_row env obs seen md5s ph mtype r) (rows L1),
                           by_md5 := AList.update md5s bid (by_md5 L1),
                           by_phash := AList.update ph bid (by_phash L1)\<rparr>))))"

definition parse_dates :: "string \<Rightarrow> string list" where
  \<comment> \<open>a stored \<^verbatim>\<open>seen_dates\<close> value read back: its non-empty parts between semicolons\<close>
  "parse_dates s = filter (\<lambda>p. p \<noteq> []) (split (CHR '';'') s)"

subsection \<open>Saving\<close>





subsection \<open>Well-formed ledgers\<close>

text \<open>
  What holds of every ledger the constructor and \<^verbatim>\<open>observe_image\<close> produce: banner ids
  are distinct and non-empty, a row carries its banner id, and the indexes hold banner ids
  of rows.
\<close>

definition banner_ids :: "ledger \<Rightarrow> string list" where
  "banner_ids L = map fst (rows L)"

definition ledger_ok :: "ledger \<Rightarrow> bool" where
  "ledger_ok L =
     (distinct (banner_ids L) \<and> [] \<notin> set (banner_ids L)
      \<and> (\<forall>(bid, r) \<in> set (rows L). get r ''banner_id'' = bid)
      \<and> (\<forall>(m, bid) \<in> set (by_md5 L). bid \<in> set (banner_ids L))
      \<and> (\<forall>(p, bid) \<in> set (by_phash L). bid \<in> set (banner_ids L)))"

definition row_of :: "ledger \<Rightarrow> string \<Rightarrow> row" where
  \<comment> \<open>\<^verbatim>\<open>rows.get(bid, {})\<close>\<close>
  "row_of L bid = (case map_of (rows L) bid of None \<Rightarrow> [] | Some r \<Rightarrow> r)"

text \<open>
  The index invariant of the data model: the index entry for the current fingerprint of a
  record is the banner id of that record.
\<close>

definition md5_points_back :: "ledger \<Rightarrow> bool" where
  "md5_points_back L =
     (\<forall>(bid, r) \<in> set (rows L). map_of (by_md5 L) (get r ''md5'') = Some bid)"

definition phash_points_back :: "ledger \<Rightarrow> bool" where
  "phash_points_back L =
     (\<forall>(bid, r) \<in> set (rows L). map_of (by_phash L) (get r ''phash'') = Some bid)"


text \<open>A row with exactly the columns of the schema, in the order of the schema.\<close>

definition schema_ok :: "ledger \<Rightarrow> bool" where
  "schema_ok L = (\<forall>(bid, r) \<in> set (rows L). map fst r = LEDGER_FIELDS)"

subsection \<open>The classification in the words of its description\<close>





subsection \<open>A small environment for worked examples\<close>

text \<open>
  Image bytes of the examples have the form \<^verbatim>\<open>digest|hash\<close>: the digest is the text before
  the bar, the similarity hash the text after it, bytes without a bar are not an image, and
  the distance of two hashes is the number of positions where they differ.
\<close>

definition demo_env :: environ where
  "demo_env = \<lparr>md5_hexdigest = (\<lambda>b. takeWhile (\<lambda>c. c \<noteq> CHR ''|'') b),
     image_phash = (\<lambda>b. if CHR ''|'' \<in> set b
        then Inr (drop 1 (dropWhile (\<lambda>c. c \<noteq> CHR ''|'') b)) else Inl DecodeError),
     hash_distance = (\<lambda>a b. int (length (filter (\<lambda>(x, y). x \<noteq> y) (zip a b)))),
     tldextract = None, phash_dist_setting = None, public_base_url = None,
     clock_today = ''2024-01-01''\<rparr>"

definition demo_obs :: observation where
  "demo_obs = \<lparr>site = ''s1'', example_path = ''out/a.png'', example_rel = None,
     seen_date = Some ''2024-01-01'', click_url = None, asset_url = None, page_url = None,
     iframe_src = None, advertiser_hint = None\<rparr>"

definition semi_obs :: observation where
  "semi_obs = demo_obs\<lparr>seen_date := Some ''2024-01-01;2024-01-02''\<rparr>"

definition observe_all :: "environ \<Rightarrow> ledger \<Rightarrow> bytes list \<Rightarrow> observation \<Rightarrow> ledger" where
  \<comment> \<open>the ledger after observing the images in turn\<close>
  "observe_all env L imgs obs = foldl (\<lambda>L b. snd (observe_image env L b obs)) L imgs"

definition two_banners :: ledger where
  "two_banners = observe_all demo_env empty_ledger
     [''aaaaaaaaaa|0000000000000000'', ''bbbbbbbbbb|ffffffff00000000''] demo_obs"

definition semi_ledger :: ledger where
  "semi_ledger = snd (observe_image demo_env empty_ledger ''aaaaaaaaaa|00000000'' semi_obs)"

definition collided :: ledger where
  \<comment> \<open>after a third image, with the digest of the second and the hash of the first\<close>
  "collided = snd (observe_image demo_env two_banners ''bbbbbbbbbb|0000000000000000'' demo_obs)"


section \<open>Properties\<close>

subsection \<open>Hosts and domains\<close>

lemma etld1_empty: "etld1_from_host env [] = []"
  by (simp add: etld1_from_host_def)

lemma host_from_url_falsy: "\<not> truthy u \<Longrightarrow> host_from_url u = []"
  by (simp add: host_from_url_def)

lemma join_nonempty: "2 \<le> length xs \<Longrightarrow> sep \<noteq> [] \<Longrightarrow> join sep xs \<noteq> []"
proof (cases xs)
  case Nil
  then show "2 \<le> length xs \<Longrightarrow> join sep xs \<noteq> []" by simp
next
  case (Cons x ys)
  then show "2 \<le> length xs \<Longrightarrow> sep \<noteq> [] \<Longrightarrow> join sep xs \<noteq> []"
    by (cases ys) simp_all
qed

lemma last_two_labels_nonempty: "host \<noteq> [] \<Longrightarrow> last_two_labels host \<noteq> []"
  by (simp add: last_two_labels_def Let_def join_nonempty)

lemma etld1_nonempty: "host \<noteq> [] \<Longrightarrow> etld1_from_host env host \<noteq> []"
  by (auto simp add: etld1_from_host_def last_two_labels_nonempty split: option.splits prod.splits)











text \<open>
  Claim C5. \<^verbatim>\<open>_choose_advertiser\<close> returns the hint's host and registrable domain if that
  domain is acceptable (non-empty, not in the denylist, different from the page's registrable
  domain); otherwise the click URL's host and registrable domain under the same rule;
  otherwise two empty strings. So when both the hint and the click URL are acceptable, the
  hint wins, whatever the click URL resolves to.
\<close>

theorem choose_advertiser_priority:
  "choose_advertiser env hint click page =
     (if acceptable (page_domain_of env page) (etld1_from_host env (host_from_hint hint))
      then (host_from_hint hint, etld1_from_host env (host_from_hint hint))
      else if acceptable (page_domain_of env page) (etld1_from_host env (host_from_url click))
      then (host_from_url click, etld1_from_host env (host_from_url click))
      else ([], []))"
  by (auto simp add: choose_advertiser_def acceptable_def page_domain_of_def Let_def
      etld1_empty host_from_url_falsy)

theorem choose_advertiser_priority_witness:
  "acceptable (page_domain_of demo_env (Some ''https://news.mn/''))
        (etld1_from_host demo_env (host_from_hint (Some ''Brand.Example.com'')))
   \<and> acceptable (page_domain_of demo_env (Some ''https://news.mn/''))
        (etld1_from_host demo_env (host_from_url (Some ''https://shop.other.org/landing'')))
   \<and> choose_advertiser demo_env (Some ''Brand.Example.com'') (Some ''https://shop.other.org/landing'')
         (Some ''https://news.mn/'') = (''brand.example.com'', ''example.com'')"
proof -
  have h1: "acceptable (page_domain_of demo_env (Some ''https://news.mn/''))
        (etld1_from_host demo_env (host_from_hint (Some ''Brand.Example.com'')))" by code_simp
  have h2: "acceptable (page_domain_of demo_env (Some ''https://news.mn/''))
        (etld1_from_host demo_env (host_from_url (Some ''https://shop.other.org/landing'')))"
    by code_simp
  have h3: "host_from_hint (Some ''Brand.Example.com'') = ''brand.example.com''" by code_simp
  have h4: "etld1_from_host demo_env ''brand.example.com'' = ''example.com''" by code_simp
  from choose_advertiser_priority [where env = demo_env and hint = "Some ''Brand.Example.com''"
      and page = "Some ''https://news.mn/''" and click = "Some ''https://shop.other.org/landing''"]
    h1 h2 h3 h4
  show ?thesis by simp
qed

text \<open>
  Claim C10. The denylist is consulted with the registrable domain of the candidate, never
  with its host. A click URL whose host is itself a denylist entry, but whose registrable
  domain is not listed, is therefore accepted whenever that domain differs from the page's
  (and the hint gave nothing acceptable, which would have gone first). The entry
  \<^verbatim>\<open>adservice.google.com\<close>, with registrable domain \<^verbatim>\<open>google.com\<close>, is such a host.
\<close>

theorem choose_advertiser_denylisted_host:
  assumes "\<not> acceptable (page_domain_of env page) (etld1_from_host env (host_from_hint hint))"
      and "host_from_url click = host" and "host \<in> set AD_HOST_SKIP"
      and "etld1_from_host env host = domain" and "domain \<notin> set AD_HOST_SKIP"
      and "domain \<noteq> page_domain_of env page"
  shows "choose_advertiser env hint click page = (host, domain)"
proof -
  have "host \<noteq> []" using assms(3) by (auto simp add: AD_HOST_SKIP_def)
  then have "domain \<noteq> []" using assms(4) etld1_nonempty by blast
  then have "acceptable (page_domain_of env page) (etld1_from_host env (host_from_url click))"
    using assms by (simp add: acceptable_def)
  then show ?thesis
    using assms
    by (auto simp add: choose_advertiser_def acceptable_def page_domain_of_def Let_def
        etld1_empty host_from_url_falsy)
qed

theorem choose_advertiser_denylisted_host_witness:
  "\<not> acceptable (page_domain_of demo_env (Some ''https://news.mn/''))
        (etld1_from_host demo_env (host_from_hint None))
   \<and> host_from_url (Some ''https://adservice.google.com/click?id=7'') = ''adservice.google.com''
   \<and> ''adservice.google.com'' \<in> set AD_HOST_SKIP
   \<and> etld1_from_host demo_env ''adservice.google.com'' = ''google.com''
   \<and> ''google.com'' \<notin> set AD_HOST_SKIP
   \<and> ''google.com'' \<noteq> page_domain_of demo_env (Some ''https://news.mn/'')
   \<and> choose_advertiser demo_env None (Some ''https://adservice.google.com/click?id=7'')
         (Some ''https://news.mn/'') = (''adservice.google.com'', ''google.com'')"
proof -
  have h1: "\<not> acceptable (page_domain_of demo_env (Some ''https://news.mn/''))
        (etld1_from_host demo_env (host_from_hint None))" by code_simp
  have h2: "host_from_url (Some ''https://adservice.google.com/click?id=7'') = ''adservice.google.com''"
    by code_simp
  have h3: "''adservice.google.com'' \<in> set AD_HOST_SKIP" by code_simp
  have h4: "etld1_from_host demo_env ''adservice.google.com'' = ''google.com''" by code_simp
  have h5: "''google.com'' \<notin> set AD_HOST_SKIP" by code_simp
  have h6: "''google.com'' \<noteq> page_domain_of demo_env (Some ''https://news.mn/'')" by code_simp
  from choose_advertiser_denylisted_host [OF h1 h2 h3 h4 h5 h6] h1 h2 h3 h4 h5 h6
  show ?thesis by blast
qed

subsection \<open>Construction\<close>

lemma load_rows_without_id:
  "list_all (\<lambda>r. get r ''banner_id'' = []) rs \<Longrightarrow> foldl load_row L rs = L"
  by (induction rs arbitrary: L) (simp_all add: load_row_def)

text \<open>
  Claim C8, as stated, fails: \<^verbatim>\<open>_load\<close> guards only against a missing file, and a file that
  \<^verbatim>\<open>open\<close> or the CSV reader rejects makes the constructor raise.
\<close>

theorem BannerLedger_unreadable_raises: "BannerLedger Unreadable = Inl StoreError"
  by (simp add: BannerLedger_def load_def)

text \<open>
  Claim C8, amended. Constructing a ledger when the store file is missing does not raise and
  gives the empty ledger; so does a readable file none of whose rows carries a
  \<^verbatim>\<open>banner_id\<close>, which is how text that is not a ledger table reads.
\<close>

theorem BannerLedger_missing_starts_empty:
  "BannerLedger Missing = Inr empty_ledger
   \<and> (list_all (\<lambda>r. get r ''banner_id'' = []) rs \<longrightarrow> BannerLedger (Csv rs) = Inr empty_ledger)"
  by (simp add: BannerLedger_def load_def load_rows_without_id)

theorem BannerLedger_missing_starts_empty_witness:
  "list_all (\<lambda>r. get r ''banner_id'' = []) [[(''PK'', ''x'')]]
   \<and> BannerLedger (Csv [[(''PK'', ''x'')]]) = Inr empty_ledger"
proof -
  have h: "list_all (\<lambda>r. get r ''banner_id'' = []) [[(''PK'', ''x'')]]"
    by (simp add: get_def or_empty_def)
  from BannerLedger_missing_starts_empty [of "[[(''PK'', ''x'')]]"] h show ?thesis by blast
qed

subsection \<open>Rows\<close>

lemma split_nonempty: "split sep s \<noteq> []"
  by (induction s) (auto split: list.splits)

lemma split_no_sep: "p \<in> set (split sep s) \<Longrightarrow> sep \<notin> set p"
  by (induction s arbitrary: p) (auto split: list.splits if_splits)

lemma split_single: "sep \<notin> set x \<Longrightarrow> split sep x = [x]"
  by (induction x) auto

lemma split_append: "sep \<notin> set x \<Longrightarrow> split sep (x @ sep # ys) = x # split sep ys"
  by (induction x) auto

lemma split_join:
  "xs \<noteq> [] \<Longrightarrow> \<forall>x \<in> set xs. sep \<notin> set x \<Longrightarrow> split sep (join [sep] xs) = xs"
  by (induction "[sep]" xs rule: join.induct) (simp_all add: split_single split_append)

lemma get_update: "get (AList.update k v r) k' = (if k' = k then v else get r k')"
  by (simp add: get_def update_conv' or_empty_def)

lemma get_add_unique: "k' \<noteq> key \<Longrightarrow> get (add_unique r key v) k' = get r k'"
  by (simp add: add_unique_def Let_def get_update)

lemma merge_dates_seen_dates:
  "get (merge_dates seen r) ''seen_dates'' =
     join '';'' (sorted_list_of_set (insert seen (set (parse_dates (get r ''seen_dates'')))))"
  by (simp add: merge_dates_def Let_def get_update parse_dates_def)

lemma merge_dates_days_seen:
  "get (merge_dates seen r) ''days_seen'' =
     str_nat (card (insert seen (set (parse_dates (get r ''seen_dates'')))))"
  by (simp add: merge_dates_def Let_def get_update parse_dates_def)

lemma merge_example_other:
  "k \<noteq> ''example_path'' \<Longrightarrow> k \<noteq> ''example_rel'' \<Longrightarrow> k \<noteq> ''example_url'' \<Longrightarrow>
   get (merge_example env obs r) k = get r k"
  by (simp add: merge_example_def Let_def get_update)

lemma merge_attribution_other:
  "k \<noteq> ''advertiser_host'' \<Longrightarrow> k \<noteq> ''advertiser_domain'' \<Longrightarrow> k \<noteq> ''advertiser_hosts_all'' \<Longrightarrow>
   k \<noteq> ''advertiser_domains_all'' \<Longrightarrow> get (merge_attribution env obs r) k = get r k"
  by (simp add: merge_attribution_def Let_def get_update get_add_unique split: prod.splits)

lemma merge_hosts_other:
  "k \<noteq> ''source_host'' \<Longrightarrow> k \<noteq> ''iframe_host'' \<Longrightarrow> k \<noteq> ''page_domain'' \<Longrightarrow>
   get (merge_hosts env obs r) k = get r k"
  by (simp add: merge_hosts_def Let_def get_update)

lemma merge_row_seen_dates:
  "get (merge_row env obs seen md5s ph mtype r) ''seen_dates'' =
     join '';'' (sorted_list_of_set (insert seen (set (parse_dates (get r ''seen_dates'')))))"
  by (simp add: merge_row_def refresh_prints_def get_update merge_hosts_other
      merge_attribution_other merge_example_other merge_dates_seen_dates)

lemma merge_row_days_seen:
  "get (merge_row env obs seen md5s ph mtype r) ''days_seen'' =
     str_nat (card (insert seen (set (parse_dates (get r ''seen_dates'')))))"
  by (simp add: merge_row_def refresh_prints_def get_update merge_hosts_other
      merge_attribution_other merge_example_other merge_dates_days_seen)

lemma stored_dates:
  fixes old :: string
  assumes "seen \<noteq> []" and "CHR '';'' \<notin> set seen"
  defines "D \<equiv> insert seen (set (parse_dates old))"
  shows "split (CHR '';'') (join '';'' (sorted_list_of_set D)) = sorted_list_of_set D"
    and "parse_dates (join '';'' (sorted_list_of_set D)) = sorted_list_of_set D"
proof -
  have fin: "finite D" by (simp add: D_def)
  have ne: "sorted_list_of_set D \<noteq> []"
    using fin by (simp add: sorted_list_of_set_eq_Nil_iff D_def)
  have el: "\<forall>x \<in> D. CHR '';'' \<notin> set x \<and> x \<noteq> []"
    using assms(1,2) by (auto simp add: D_def parse_dates_def dest: split_no_sep)
  then have "\<forall>x \<in> set (sorted_list_of_set D). CHR '';'' \<notin> set x"
    using fin by simp
  with ne show s: "split (CHR '';'') (join '';'' (sorted_list_of_set D)) = sorted_list_of_set D"
    by (rule split_join)
  have "filter (\<lambda>p. p \<noteq> []) (sorted_list_of_set D) = sorted_list_of_set D"
    using el fin by (simp add: filter_id_conv)
  with s show "parse_dates (join '';'' (sorted_list_of_set D)) = sorted_list_of_set D"
    by (simp add: parse_dates_def)
qed

lemma observe_image_row:
  assumes "observe_image env L img_bytes obs = (Inr (bid, mtype), L')"
  shows "\<exists>r ph. map_of (rows L') bid
          = Some (merge_row env obs (if truthy (seen_date obs) then the (seen_date obs) else today env)
               (md5_short env img_bytes) ph mtype r) \<and> phash_hex env img_bytes = Inr ph"
  using assms
  by (auto simp add: observe_image_def update_conv' Let_def
      split: sum.splits prod.splits option.splits)

subsection \<open>Observations\<close>

text \<open>
  Claim C7. When the bytes are not an image the fingerprinter can decode, \<^verbatim>\<open>observe_image\<close>
  raises the decoding error and the ledger (rows and both indexes) is what it was before the
  call.
\<close>

theorem observe_image_decode_failure:
  "phash_hex env img_bytes = Inl e \<Longrightarrow> observe_image env L img_bytes obs = (Inl e, L)"
  by (simp add: observe_image_def)

theorem observe_image_decode_failure_witness:
  "phash_hex demo_env ''not an image'' = Inl DecodeError
   \<and> observe_image demo_env empty_ledger ''not an image'' demo_obs = (Inl DecodeError, empty_ledger)"
proof -
  have h: "phash_hex demo_env ''not an image'' = Inl DecodeError"
    by (simp add: phash_hex_def demo_env_def)
  from observe_image_decode_failure [OF h] h show ?thesis by simp
qed

text \<open>
  Claim C4. If a call of \<^verbatim>\<open>observe_image\<close> returns a banner id, the same call with the same
  bytes and the same context on the resulting ledger returns the same banner id, with match
  type \<^verbatim>\<open>exact\<close>. (The first call does return on a well-formed ledger when the bytes
  decode: \<open>observe_image_returns\<close> below.)
\<close>

theorem observe_image_twice:
  assumes "observe_image env L img_bytes obs = (Inr (bid, mtype), L1)"
  shows "\<exists>L2. observe_image env L1 img_bytes obs = (Inr (bid, ''exact''), L2)"
  using assms
  by (auto simp add: observe_image_def select_record_def update_conv' Let_def
      split: sum.splits prod.splits option.splits if_splits)

theorem observe_image_twice_witness:
  "observe_image demo_env empty_ledger ''aaaaaaaaaa|00000000'' demo_obs
     = (Inr (''bn_aaaaaaaaaa'', ''new''),
        snd (observe_image demo_env empty_ledger ''aaaaaaaaaa|00000000'' demo_obs))
   \<and> (\<exists>L2. observe_image demo_env
              (snd (observe_image demo_env empty_ledger ''aaaaaaaaaa|00000000'' demo_obs))
              ''aaaaaaaaaa|00000000'' demo_obs = (Inr (''bn_aaaaaaaaaa'', ''exact''), L2))"
proof -
  have h: "observe_image demo_env empty_ledger ''aaaaaaaaaa|00000000'' demo_obs
     = (Inr (''bn_aaaaaaaaaa'', ''new''),
        snd (observe_image demo_env empty_ledger ''aaaaaaaaaa|00000000'' demo_obs))"
    by code_simp
  from observe_image_twice [OF h] h show ?thesis by blast
qed

text \<open>
  Claim C6, as stated, fails: nothing keeps a semicolon out of the date of an observation,
  and a date with a semicolon is stored as one element, counted as one, and read back as
  two.
\<close>

theorem observe_image_days_seen_semicolon:
  "fst (observe_image demo_env empty_ledger ''aaaaaaaaaa|00000000'' semi_obs)
     = Inr (''bn_aaaaaaaaaa'', ''new'')
   \<and> get (row_of semi_ledger ''bn_aaaaaaaaaa'') ''seen_dates''
       = ''2024-01-01;2024-01-01;2024-01-02;2024-01-02''
   \<and> get (row_of semi_ledger ''bn_aaaaaaaaaa'') ''days_seen'' = ''3''
   \<and> card (set (parse_dates (get (row_of semi_ledger ''bn_aaaaaaaaaa'') ''seen_dates''))) = 2
   \<and> \<not> distinct (split (CHR '';'') (get (row_of semi_ledger ''bn_aaaaaaaaaa'') ''seen_dates''))"
  by code_simp

text \<open>
  Claim C6, amended. After a call of \<^verbatim>\<open>observe_image\<close> whose date (the argument, or
  today's date when it is absent or empty) is non-empty and has no semicolon, the
  \<^verbatim>\<open>days_seen\<close> field of the observed record is the number of distinct dates in its
  \<^verbatim>\<open>seen_dates\<close> field, read as a semicolon-joined list; that list is sorted, has no
  duplicates, and contains the date of the call.
\<close>

theorem observe_image_days_seen:
  assumes "observe_image env L img_bytes obs = (Inr (bid, mtype), L')"
      and "d = (if truthy (seen_date obs) then the (seen_date obs) else today env)"
      and "d \<noteq> []" and "CHR '';'' \<notin> set d"
  shows "\<exists>r. map_of (rows L') bid = Some r
           \<and> get r ''days_seen'' = str_nat (card (set (parse_dates (get r ''seen_dates''))))
           \<and> sorted (split (CHR '';'') (get r ''seen_dates''))
           \<and> distinct (split (CHR '';'') (get r ''seen_dates''))
           \<and> d \<in> set (split (CHR '';'') (get r ''seen_dates''))"
proof -
  from observe_image_row [OF assms(1)] obtain r0 ph where
    r: "map_of (rows L') bid = Some (merge_row env obs d (md5_short env img_bytes) ph mtype r0)"
    using assms(2) by auto
  let ?r = "merge_row env obs d (md5_short env img_bytes) ph mtype r0"
  let ?D = "insert d (set (parse_dates (get r0 ''seen_dates'')))"
  have fin: "finite ?D" by simp
  have sd: "get ?r ''seen_dates'' = join '';'' (sorted_list_of_set ?D)"
    by (rule merge_row_seen_dates)
  have ds: "get ?r ''days_seen'' = str_nat (card ?D)"
    by (rule merge_row_days_seen)
  have s1: "split (CHR '';'') (get ?r ''seen_dates'') = sorted_list_of_set ?D"
    unfolding sd using assms(3,4) by (rule stored_dates(1))
  have s2: "parse_dates (get ?r ''seen_dates'') = sorted_list_of_set ?D"
    unfolding sd using assms(3,4) by (rule stored_dates(2))
  have ss: "set (sorted_list_of_set ?D) = ?D"
    using fin by (rule set_sorted_list_of_set)
  have "get ?r ''days_seen'' = str_nat (card (set (parse_dates (get ?r ''seen_dates''))))"
    unfolding s2 ds ss ..
  moreover have "sorted (split (CHR '';'') (get ?r ''seen_dates''))"
    unfolding s1 by (rule sorted_sorted_list_of_set)
  moreover have "distinct (split (CHR '';'') (get ?r ''seen_dates''))"
    unfolding s1 by (rule distinct_sorted_list_of_set)
  moreover have "d \<in> set (split (CHR '';'') (get ?r ''seen_dates''))"
    unfolding s1 ss by (rule insertI1)
  ultimately show ?thesis using r by blast
qed

theorem observe_image_days_seen_witness:
  "observe_image demo_env empty_ledger ''aaaaaaaaaa|00000000'' demo_obs
     = (Inr (''bn_aaaaaaaaaa'', ''new''),
        snd (observe_image demo_env empty_ledger ''aaaaaaaaaa|00000000'' demo_obs))
   \<and> ''2024-01-01'' = (if truthy (seen_date demo_obs) then the (seen_date demo_obs) else today demo_env)
   \<and> ''2024-01-01'' \<noteq> [] \<and> CHR '';'' \<notin> set ''2024-01-01''
   \<and> (\<exists>r. map_of (rows (snd (observe_image demo_env empty_ledger ''aaaaaaaaaa|00000000'' demo_obs)))
              ''bn_aaaaaaaaaa'' = Some r
           \<and> get r ''days_seen'' = str_nat (card (set (parse_dates (get r ''seen_dates''))))
           \<and> sorted (split (CHR '';'') (get r ''seen_dates''))
           \<and> distinct (split (CHR '';'') (get r ''seen_dates''))
           \<and> ''2024-01-01'' \<in> set (split (CHR '';'') (get r ''seen_dates'')))"
proof -
  have h1: "observe_image demo_env empty_ledger ''aaaaaaaaaa|00000000'' demo_obs
     = (Inr (''bn_aaaaaaaaaa'', ''new''),
        snd (observe_image demo_env empty_ledger ''aaaaaaaaaa|00000000'' demo_obs))"
    by code_simp
  have h2: "''2024-01-01'' = (if truthy (seen_date demo_obs) then the (seen_date demo_obs) else today demo_env)"
    by code_simp
  have h3: "''2024-01-01'' \<noteq> []" by simp
  have h4: "CHR '';'' \<notin> set ''2024-01-01''" by simp
  from observe_image_days_seen [OF h1 h2 h3 h4] h1 h2 h3 h4 show ?thesis by blast
qed

subsection \<open>Well-formed ledgers\<close>

lemma map_of_update: "map_of (AList.update k v al) k' = (if k' = k then Some v else map_of al k')"
  by (simp add: update_conv')

lemma keys_update: "fst ` set (AList.update k v al) = insert k (fst ` set al)"
  using dom_update [of k v al] by simp

lemma set_update_subset: "set (AList.update k v al) \<subseteq> insert (k, v) (set al)"
  by (induction al) auto

lemma update_other_member:
  "(k', v') \<in> set (AList.update k v al) \<Longrightarrow> k' \<noteq> k \<Longrightarrow> (k', v') \<in> set al"
  using set_update_subset [of k v al] by auto

lemma update_same_member:
  "distinct (map fst al) \<Longrightarrow> (k, v') \<in> set (AList.update k v al) \<Longrightarrow> v' = v"
  using distinct_update [of al k v] map_of_update [of k v al k]
  by (metis map_of_eq_Some_iff option.inject)

lemma get_setdefault: "get (setdefault r a []) k = get r k"
  by (auto simp add: setdefault_def get_def or_empty_def map_add_def
      split: option.splits if_splits)

lemma get_backfill: "get (backfill r) k = get r k"
proof -
  have "get (foldl (\<lambda>r k. setdefault r k []) r ks) k = get r k" for ks
    by (induction ks arbitrary: r) (simp_all add: get_setdefault)
  then show ?thesis by (simp add: backfill_def)
qed

lemma get_merge_row_banner_id:
  "get (merge_row env obs seen md5s ph mtype r) ''banner_id'' = get r ''banner_id''"
  by (simp add: merge_row_def refresh_prints_def get_update merge_hosts_other
      merge_attribution_other merge_example_other merge_dates_def Let_def)

lemma get_merge_row_md5: "get (merge_row env obs seen md5s ph mtype r) ''md5'' = md5s"
  by (simp add: merge_row_def refresh_prints_def get_update)

lemma get_merge_row_phash: "get (merge_row env obs seen md5s ph mtype r) ''phash'' = ph"
  by (simp add: merge_row_def refresh_prints_def get_update)

lemma get_new_row_banner_id: "get (new_row obs seen bid md5s ph) ''banner_id'' = bid"
  by (simp add: new_row_def get_def or_empty_def)

lemma scan_near_id:
  "scan_near env ph rs (b0, d0) = (Some bid, d) \<Longrightarrow> b0 = Some bid \<or> bid \<in> fst ` set rs"
proof (induction rs arbitrary: b0 d0)
  case Nil
  then show ?case by simp
next
  case (Cons x rs)
  obtain k r where x: "x = (k, r)" by (cases x)
  from Cons.prems consider
      "scan_near env ph rs (b0, d0) = (Some bid, d)"
    | "scan_near env ph rs (Some k, phash_dist env ph (get r ''phash'')) = (Some bid, d)"
    by (auto simp add: x Let_def split: if_splits)
  then show ?case
  proof cases
    case 1
    from Cons.IH [OF 1] show ?thesis by auto
  next
    case 2
    from Cons.IH [OF 2] show ?thesis by (auto simp add: x)
  qed
qed

lemma find_by_phash_near_id:
  assumes "find_by_phash_near env L ph = Some bid"
  shows "(ph, bid) \<in> set (by_phash L) \<or> bid \<in> set (banner_ids L)"
proof (cases "map_of (by_phash L) ph")
  case None
  with assms obtain d where "scan_near env ph (rows L) (None, 10 ^ 9) = (Some bid, d)"
    by (auto simp add: find_by_phash_near_def split: prod.splits if_splits)
  from scan_near_id [OF this] show ?thesis by (simp add: banner_ids_def)
next
  case (Some b)
  with assms have "b = bid" by (simp add: find_by_phash_near_def)
  with Some show ?thesis by (auto dest: map_of_SomeD)
qed

lemma select_record_cases:
  assumes "select_record env L obs seen md5s ph = (bid, mtype, L1)"
  shows "(mtype = ''exact'' \<and> map_of (by_md5 L) md5s = Some bid \<and> L1 = L)
       \<or> (mtype = ''near'' \<and> map_of (by_md5 L) md5s = None
            \<and> find_by_phash_near env L ph = Some bid \<and> bid \<noteq> [] \<and> L1 = L)
       \<or> (mtype = ''new'' \<and> map_of (by_md5 L) md5s = None
            \<and> \<not> truthy (find_by_phash_near env L ph) \<and> bid = alloc_banner_id md5s
            \<and> L1 = L\<lparr>rows := AList.update bid (new_row obs seen bid md5s ph) (rows L)\<rparr>)"
  using assms
  by (auto simp add: select_record_def Let_def truthy_def split: option.splits if_splits)

lemma observe_image_success:
  assumes "observe_image env L img_bytes obs = (Inr (bid, mtype), L')"
  obtains ph L1 r where "phash_hex env img_bytes = Inr ph"
    and "select_record env L obs (if truthy (seen_date obs) then the (seen_date obs) else today env)
           (md5_short env img_bytes) ph = (bid, mtype, L1)"
    and "map_of (rows L1) bid = Some r"
    and "L' = L1\<lparr>rows := AList.update bid
                 (merge_row env obs (if truthy (seen_date obs) then the (seen_date obs) else today env)
                    (md5_short env img_bytes) ph mtype r) (rows L1),
               by_md5 := AList.update (md5_short env img_bytes) bid (by_md5 L1),
               by_phash := AList.update ph bid (by_phash L1)\<rparr>"
  using assms
  by (auto simp add: observe_image_def Let_def split: sum.splits prod.splits option.splits)

lemma ledger_ok_empty: "ledger_ok empty_ledger"
  by (simp add: ledger_ok_def empty_ledger_def banner_ids_def)

lemma ledger_ok_set_row:
  assumes "ledger_ok L" and "bid \<noteq> []" and "get r ''banner_id'' = bid"
  shows "ledger_ok (L\<lparr>rows := AList.update bid r (rows L)\<rparr>)"
proof -
  have d: "distinct (map fst (AList.update bid r (rows L)))"
    using assms(1) by (simp add: ledger_ok_def banner_ids_def distinct_update)
  have k: "fst ` set (AList.update bid r (rows L)) = insert bid (set (banner_ids L))"
    by (simp add: keys_update banner_ids_def)
  have g: "get r' ''banner_id'' = b" if "(b, r') \<in> set (AList.update bid r (rows L))" for b r'
  proof (cases "b = bid")
    case True
    with that update_same_member [of "rows L" bid r' r] assms(1,3) show ?thesis
      by (simp add: ledger_ok_def banner_ids_def)
  next
    case False
    with that update_other_member have "(b, r') \<in> set (rows L)" by fast
    with assms(1) show ?thesis by (auto simp add: ledger_ok_def)
  qed
  show ?thesis
    unfolding ledger_ok_def banner_ids_def
    using d k g assms(1,2) by (auto simp add: ledger_ok_def banner_ids_def)
qed

lemma ledger_ok_set_index:
  assumes "ledger_ok L" and "bid \<in> set (banner_ids L)"
  shows "ledger_ok (L\<lparr>by_md5 := AList.update m bid (by_md5 L)\<rparr>)"
    and "ledger_ok (L\<lparr>by_phash := AList.update p bid (by_phash L)\<rparr>)"
  using assms set_update_subset [of m bid "by_md5 L"] set_update_subset [of p bid "by_phash L"]
  by (auto simp add: ledger_ok_def banner_ids_def)

lemma banner_ids_set_row:
  "set (banner_ids (L\<lparr>rows := AList.update bid r (rows L)\<rparr>)) = insert bid (set (banner_ids L))"
  by (simp add: banner_ids_def keys_update)

lemma ledger_ok_load_row: "ledger_ok L \<Longrightarrow> ledger_ok (load_row L r)"
proof -
  assume ok: "ledger_ok L"
  let ?bid = "get r ''banner_id''"
  let ?L1 = "L\<lparr>rows := AList.update ?bid (backfill r) (rows L)\<rparr>"
  let ?L2 = "if get (backfill r) ''md5'' \<noteq> []
             then ?L1\<lparr>by_md5 := AList.update (get (backfill r) ''md5'') ?bid (by_md5 ?L1)\<rparr> else ?L1"
  show ?thesis
  proof (cases "?bid = []")
    case True
    with ok show ?thesis by (simp add: load_row_def)
  next
    case False
    then have ok1: "ledger_ok ?L1"
      using ok by (intro ledger_ok_set_row) (simp_all add: get_backfill)
    have in1: "?bid \<in> set (banner_ids ?L1)"
      by (simp only: banner_ids_set_row insertI1)
    have ok2: "ledger_ok ?L2"
      using ok1 in1 ledger_ok_set_index(1) [of ?L1 ?bid] by simp
    have in2: "?bid \<in> set (banner_ids ?L2)"
      using in1 by (simp add: banner_ids_def)
    have "ledger_ok (if get (backfill r) ''phash'' \<noteq> []
             then ?L2\<lparr>by_phash := AList.update (get (backfill r) ''phash'') ?bid (by_phash ?L2)\<rparr> else ?L2)"
      using ok2 in2 ledger_ok_set_index(2) [of ?L2 ?bid] by simp
    with False show ?thesis by (simp add: load_row_def Let_def)
  qed
qed

lemma ledger_ok_load_rows: "ledger_ok L \<Longrightarrow> ledger_ok (foldl load_row L rs)"
  by (induction rs arbitrary: L) (simp_all add: ledger_ok_load_row)

lemma ledger_ok_BannerLedger: "BannerLedger st = Inr L \<Longrightarrow> ledger_ok L"
  by (cases st) (auto simp add: BannerLedger_def load_def ledger_ok_empty ledger_ok_load_rows)

lemma select_record_ok:
  assumes "ledger_ok L" and "select_record env L obs seen md5s ph = (bid, mtype, L1)"
  shows "ledger_ok L1" and "by_md5 L1 = by_md5 L" and "by_phash L1 = by_phash L"
proof -
  have "get (new_row obs seen (alloc_banner_id md5s) md5s ph) ''banner_id'' = alloc_banner_id md5s"
    by (rule get_new_row_banner_id)
  moreover have "alloc_banner_id md5s \<noteq> []" by (simp add: alloc_banner_id_def)
  ultimately have "ledger_ok (L\<lparr>rows := AList.update (alloc_banner_id md5s)
      (new_row obs seen (alloc_banner_id md5s) md5s ph) (rows L)\<rparr>)"
    using assms(1) by (intro ledger_ok_set_row)
  with select_record_cases [OF assms(2)] assms(1) show "ledger_ok L1" by auto
  from select_record_cases [OF assms(2)] show "by_md5 L1 = by_md5 L" "by_phash L1 = by_phash L"
    by auto
qed

lemma ledger_ok_observe_image:
  assumes "ledger_ok L"
  shows "ledger_ok (snd (observe_image env L img_bytes obs))"
proof (cases "phash_hex env img_bytes")
  case (Inl e)
  with assms show ?thesis by (simp add: observe_image_def)
next
  case (Inr ph)
  let ?seen = "if truthy (seen_date obs) then the (seen_date obs) else today env"
  let ?md5s = "md5_short env img_bytes"
  obtain bid mtype L1 where sel: "select_record env L obs ?seen ?md5s ph = (bid, mtype, L1)"
    by (cases "select_record env L obs ?seen ?md5s ph")
  from select_record_ok(1) [OF assms sel] have ok1: "ledger_ok L1" .
  show ?thesis
  proof (cases "map_of (rows L1) bid")
    case None
    with Inr sel ok1 show ?thesis by (simp add: observe_image_def Let_def)
  next
    case (Some r)
    let ?r = "merge_row env obs ?seen ?md5s ph mtype r"
    let ?L2 = "L1\<lparr>rows := AList.update bid ?r (rows L1)\<rparr>"
    let ?L3 = "?L2\<lparr>by_md5 := AList.update ?md5s bid (by_md5 ?L2)\<rparr>"
    let ?L4 = "?L3\<lparr>by_phash := AList.update ph bid (by_phash ?L3)\<rparr>"
    from Some have mem: "(bid, r) \<in> set (rows L1)" by (rule map_of_SomeD)
    then have "bid \<in> set (banner_ids L1)" by (force simp add: banner_ids_def)
    with ok1 have ne: "bid \<noteq> []" by (auto simp add: ledger_ok_def)
    from mem ok1 have "get r ''banner_id'' = bid" by (auto simp add: ledger_ok_def)
    then have "get ?r ''banner_id'' = bid" by (simp add: get_merge_row_banner_id)
    with ok1 ne have ok2: "ledger_ok ?L2" by (intro ledger_ok_set_row)
    have in2: "bid \<in> set (banner_ids ?L2)" by (simp only: banner_ids_set_row insertI1)
    from ledger_ok_set_index(1) [OF ok2 in2] have ok3: "ledger_ok ?L3" .
    from in2 have in3: "bid \<in> set (banner_ids ?L3)" by (simp add: banner_ids_def)
    from ledger_ok_set_index(2) [OF ok3 in3] have ok4: "ledger_ok ?L4" .
    have "snd (observe_image env L img_bytes obs) = ?L4"
      using Inr sel Some by (simp add: observe_image_def Let_def)
    with ok4 show ?thesis by simp
  qed
qed





subsection \<open>Classification\<close>





lemma index_target_has_row:
  assumes "ledger_ok L" and "map_of (by_md5 L) m = Some bid \<or> map_of (by_phash L) p = Some bid"
  shows "bid \<noteq> []" and "map_of (rows L) bid \<noteq> None"
proof -
  from assms(2) have "(m, bid) \<in> set (by_md5 L) \<or> (p, bid) \<in> set (by_phash L)"
    by (auto dest: map_of_SomeD)
  with assms(1) have b: "bid \<in> set (banner_ids L)" by (auto simp add: ledger_ok_def)
  with assms(1) show "bid \<noteq> []" by (auto simp add: ledger_ok_def)
  from b show "map_of (rows L) bid \<noteq> None"
    by (simp add: banner_ids_def map_of_eq_None_iff)
qed


lemma select_record_has_row:
  assumes "ledger_ok L" and "select_record env L obs seen md5s ph = (bid, mtype, L1)"
  shows "map_of (rows L1) bid \<noteq> None"
proof -
  from select_record_cases [OF assms(2)] show ?thesis
  proof (elim disjE conjE)
    assume "map_of (by_md5 L) md5s = Some bid" "L1 = L"
    with index_target_has_row(2) [OF assms(1), of md5s bid] show ?thesis by simp
  next
    assume near: "find_by_phash_near env L ph = Some bid" "L1 = L"
    from find_by_phash_near_id [OF near(1)] assms(1) have "bid \<in> set (banner_ids L)"
      by (auto simp add: ledger_ok_def)
    with near(2) show ?thesis by (simp add: banner_ids_def map_of_eq_None_iff)
  next
    assume "L1 = L\<lparr>rows := AList.update bid (new_row obs seen bid md5s ph) (rows L)\<rparr>"
    then show ?thesis by (simp add: map_of_update)
  qed
qed

lemma observe_image_returns:
  assumes "ledger_ok L" and "phash_hex env img_bytes = Inr ph"
  shows "\<exists>bid mtype L'. observe_image env L img_bytes obs = (Inr (bid, mtype), L')"
proof -
  let ?seen = "if truthy (seen_date obs) then the (seen_date obs) else today env"
  obtain bid mtype L1 where
    sel: "select_record env L obs ?seen (md5_short env img_bytes) ph = (bid, mtype, L1)"
    by (cases "select_record env L obs ?seen (md5_short env img_bytes) ph")
  from select_record_has_row [OF assms(1) sel] obtain r where "map_of (rows L1) bid = Some r"
    by auto
  with assms(2) sel show ?thesis by (simp add: observe_image_def Let_def)
qed



subsection \<open>The index invariant\<close>

lemma rows_after_observe:
  assumes "ledger_ok L" and "observe_image env L img_bytes obs = (Inr (bid, mtype), L')"
      and "(k, r) \<in> set (rows L')"
  shows "(k = bid \<and> get r ''md5'' = md5_short env img_bytes \<and> phash_hex env img_bytes = Inr (get r ''phash''))
       \<or> (k \<noteq> bid \<and> (k, r) \<in> set (rows L))"
proof -
  let ?seen = "if truthy (seen_date obs) then the (seen_date obs) else today env"
  let ?md5s = "md5_short env img_bytes"
  from assms(2) obtain ph L1 r0 where ph: "phash_hex env img_bytes = Inr ph"
    and sel: "select_record env L obs ?seen ?md5s ph = (bid, mtype, L1)"
    and L': "L' = L1\<lparr>rows := AList.update bid (merge_row env obs ?seen ?md5s ph mtype r0) (rows L1),
               by_md5 := AList.update ?md5s bid (by_md5 L1),
               by_phash := AList.update ph bid (by_phash L1)\<rparr>"
    by (rule observe_image_success)
  let ?r = "merge_row env obs ?seen ?md5s ph mtype r0"
  from select_record_ok(1) [OF assms(1) sel] have d1: "distinct (map fst (rows L1))"
    by (simp add: ledger_ok_def banner_ids_def)
  from assms(3) L' have mem: "(k, r) \<in> set (AList.update bid ?r (rows L1))" by simp
  show ?thesis
  proof (cases "k = bid")
    case True
    with mem update_same_member [OF d1] have "r = ?r" by blast
    with True ph show ?thesis by (simp add: get_merge_row_md5 get_merge_row_phash)
  next
    case False
    with mem update_other_member have m1: "(k, r) \<in> set (rows L1)" by fast
    from select_record_cases [OF sel] have "L1 = L \<or>
        L1 = L\<lparr>rows := AList.update bid (new_row obs ?seen bid ?md5s ph) (rows L)\<rparr>" by auto
    with m1 False update_other_member have "(k, r) \<in> set (rows L)" by fastforce
    with False show ?thesis by simp
  qed
qed

lemma indexes_after_observe:
  assumes "observe_image env L img_bytes obs = (Inr (bid, mtype), L')"
      and "phash_hex env img_bytes = Inr ph"
  shows "map_of (by_md5 L') m = (if m = md5_short env img_bytes then Some bid else map_of (by_md5 L) m)"
    and "map_of (by_phash L') p = (if p = ph then Some bid else map_of (by_phash L) p)"
proof -
  let ?seen = "if truthy (seen_date obs) then the (seen_date obs) else today env"
  let ?md5s = "md5_short env img_bytes"
  from assms(1) obtain ph' L1 r0 where ph': "phash_hex env img_bytes = Inr ph'"
    and sel: "select_record env L obs ?seen ?md5s ph' = (bid, mtype, L1)"
    and L': "L' = L1\<lparr>rows := AList.update bid (merge_row env obs ?seen ?md5s ph' mtype r0) (rows L1),
               by_md5 := AList.update ?md5s bid (by_md5 L1),
               by_phash := AList.update ph' bid (by_phash L1)\<rparr>"
    by (rule observe_image_success)
  from ph' assms(2) have e: "ph' = ph" by simp
  from select_record_cases [OF sel] have "by_md5 L1 = by_md5 L" "by_phash L1 = by_phash L"
    by auto
  with L' e show "map_of (by_md5 L') m = (if m = ?md5s then Some bid else map_of (by_md5 L) m)"
    and "map_of (by_phash L') p = (if p = ph then Some bid else map_of (by_phash L) p)"
    by (simp_all add: map_of_update)
qed

lemma observe_image_branch:
  assumes "ledger_ok L" and "observe_image env L img_bytes obs = (Inr (bid, mtype), L')"
      and "phash_hex env img_bytes = Inr ph"
  shows "map_of (by_md5 L) (md5_short env img_bytes) = Some k \<Longrightarrow> k = bid"
    and "map_of (by_phash L) ph = Some k \<Longrightarrow> mtype \<noteq> ''exact'' \<Longrightarrow> k = bid"
proof -
  let ?seen = "if truthy (seen_date obs) then the (seen_date obs) else today env"
  let ?md5s = "md5_short env img_bytes"
  from assms(2) obtain ph' L1 where ph': "phash_hex env img_bytes = Inr ph'"
    and sel: "select_record env L obs ?seen ?md5s ph' = (bid, mtype, L1)"
    by (rule observe_image_success)
  from ph' assms(3) have e: "ph' = ph" by simp
  note cases = select_record_cases [OF sel, unfolded e]
  show "k = bid" if "map_of (by_md5 L) ?md5s = Some k"
    using cases that by auto
  show "k = bid" if h: "map_of (by_phash L) ph = Some k" and ne: "mtype \<noteq> ''exact''"
  proof -
    from h have f: "find_by_phash_near env L ph = Some k" by (simp add: find_by_phash_near_def)
    from index_target_has_row(1) [OF assms(1), of _ k ph] h have "k \<noteq> []" by simp
    with f have "truthy (find_by_phash_near env L ph)" by (simp add: truthy_def)
    with cases f ne show ?thesis by auto
  qed
qed

text \<open>
  Claim C2, as stated, fails. An exact-digest match takes the record of the digest whatever
  the similarity hash is, then enters the incoming hash in the similarity-hash index for
  that record: if another record has that hash, its entry now points elsewhere. Here two
  records exist, and a third image has the digest of the second and the similarity hash
  of the first (two different images sharing a ten-digit digest).
\<close>

theorem observe_image_repoints_phash:
  "ledger_ok two_banners \<and> md5_points_back two_banners \<and> phash_points_back two_banners
   \<and> fst (observe_image demo_env two_banners ''bbbbbbbbbb|0000000000000000'' demo_obs)
       = Inr (''bn_bbbbbbbbbb'', ''exact'')
   \<and> get (row_of collided ''bn_aaaaaaaaaa'') ''phash'' = ''0000000000000000''
   \<and> map_of (by_phash collided) ''0000000000000000'' = Some ''bn_bbbbbbbbbb''
   \<and> \<not> phash_points_back collided"
  by code_simp

text \<open>
  Claim C2, amended. If the index invariant holds of a well-formed ledger, then after a call
  of \<^verbatim>\<open>observe_image\<close> that returns, the exact-digest index maps the current \<^verbatim>\<open>md5\<close> of
  every record to the banner id of that record; both indexes map the current fingerprints of
  the observed record to its banner id; and the similarity-hash index maps the current
  \<^verbatim>\<open>phash\<close> of every record to the banner id of that record, except for a record other
  than the observed one whose \<^verbatim>\<open>phash\<close> is the incoming hash when the match was \<^verbatim>\<open>exact\<close>.
\<close>

theorem observe_image_points_back:
  assumes "ledger_ok L" and "md5_points_back L" and "phash_points_back L"
      and "observe_image env L img_bytes obs = (Inr (bid, mtype), L')"
      and "phash_hex env img_bytes = Inr ph"
  shows "md5_points_back L'
     \<and> map_of (by_md5 L') (get (row_of L' bid) ''md5'') = Some bid
     \<and> map_of (by_phash L') (get (row_of L' bid) ''phash'') = Some bid
     \<and> (\<forall>(k, r) \<in> set (rows L').
           map_of (by_phash L') (get r ''phash'') = Some k
           \<or> (mtype = ''exact'' \<and> k \<noteq> bid \<and> get r ''phash'' = ph))"
proof -
  note rows = rows_after_observe [OF assms(1,4)]
  note idx = indexes_after_observe [OF assms(4,5)]
  note br = observe_image_branch [OF assms(1,4,5)]
  have md5: "map_of (by_md5 L') (get r ''md5'') = Some k" if "(k, r) \<in> set (rows L')" for k r
  proof -
    from rows [OF that] show ?thesis
    proof
      assume "k = bid \<and> get r ''md5'' = md5_short env img_bytes
          \<and> phash_hex env img_bytes = Inr (get r ''phash'')"
      then show ?thesis by (simp add: idx(1))
    next
      assume o: "k \<noteq> bid \<and> (k, r) \<in> set (rows L)"
      with assms(2) have m: "map_of (by_md5 L) (get r ''md5'') = Some k"
        by (auto simp add: md5_points_back_def)
      with br(1) o have "get r ''md5'' \<noteq> md5_short env img_bytes" by auto
      with m show ?thesis by (simp add: idx(1))
    qed
  qed
  have phash: "map_of (by_phash L') (get r ''phash'') = Some k
      \<or> (mtype = ''exact'' \<and> k \<noteq> bid \<and> get r ''phash'' = ph)"
    if "(k, r) \<in> set (rows L')" for k r
  proof -
    from rows [OF that] show ?thesis
    proof
      assume "k = bid \<and> get r ''md5'' = md5_short env img_bytes
          \<and> phash_hex env img_bytes = Inr (get r ''phash'')"
      with assms(5) show ?thesis by (simp add: idx(2))
    next
      assume o: "k \<noteq> bid \<and> (k, r) \<in> set (rows L)"
      with assms(3) have m: "map_of (by_phash L) (get r ''phash'') = Some k"
        by (auto simp add: phash_points_back_def)
      show ?thesis
      proof (cases "get r ''phash'' = ph")
        case True
        with m br(2) o show ?thesis by auto
      next
        case False
        with m show ?thesis by (simp add: idx(2))
      qed
    qed
  qed
  from assms(4) obtain r0 where own: "map_of (rows L') bid = Some r0"
    by (auto simp add: map_of_update elim!: observe_image_success)
  then have "(bid, r0) \<in> set (rows L')" by (rule map_of_SomeD)
  from md5 [OF this] phash [OF this] own
  have "map_of (by_md5 L') (get (row_of L' bid) ''md5'') = Some bid"
    and "map_of (by_phash L') (get (row_of L' bid) ''phash'') = Some bid"
    by (simp_all add: row_of_def)
  with md5 phash show ?thesis by (auto simp add: md5_points_back_def)
qed

theorem observe_image_points_back_witness:
  "ledger_ok two_banners \<and> md5_points_back two_banners \<and> phash_points_back two_banners
   \<and> observe_image demo_env two_banners ''cccccccccc|ffff000000000000'' demo_obs
       = (Inr (''bn_aaaaaaaaaa'', ''near''),
          snd (observe_image demo_env two_banners ''cccccccccc|ffff000000000000'' demo_obs))
   \<and> phash_hex demo_env ''cccccccccc|ffff000000000000'' = Inr ''ffff000000000000''
   \<and> md5_points_back (snd (observe_image demo_env two_banners ''cccccccccc|ffff000000000000'' demo_obs))
   \<and> phash_points_back (snd (observe_image demo_env two_banners ''cccccccccc|ffff000000000000'' demo_obs))"
proof -
  let ?L' = "snd (observe_image demo_env two_banners ''cccccccccc|ffff000000000000'' demo_obs)"
  have h1: "ledger_ok two_banners" by code_simp
  have h2: "md5_points_back two_banners" by code_simp
  have h3: "phash_points_back two_banners" by code_simp
  have h4: "observe_image demo_env two_banners ''cccccccccc|ffff000000000000'' demo_obs
       = (Inr (''bn_aaaaaaaaaa'', ''near''), ?L')" by code_simp
  have h5: "phash_hex demo_env ''cccccccccc|ffff000000000000'' = Inr ''ffff000000000000''"
    by code_simp
  from observe_image_points_back [OF h1 h2 h3 h4 h5]
  have "md5_points_back ?L'" and "\<forall>(k, r) \<in> set (rows ?L').
           map_of (by_phash ?L') (get r ''phash'') = Some k
           \<or> (''near'' = ''exact'' \<and> k \<noteq> ''bn_aaaaaaaaaa'' \<and> get r ''phash'' = ''ffff000000000000'')"
    by blast+
  then have "md5_points_back ?L'" and "phash_points_back ?L'"
    by (auto simp add: phash_points_back_def)
  with h1 h2 h3 h4 h5 show ?thesis by blast
qed

subsection \<open>Saving and reloading\<close>

lemma complete_update:
  "map fst r = LEDGER_FIELDS \<Longrightarrow> k \<in> set LEDGER_FIELDS \<Longrightarrow> map fst (AList.update k v r) = LEDGER_FIELDS"
  by (simp add: update_keys)

lemma complete_add_unique:
  "map fst r = LEDGER_FIELDS \<Longrightarrow> k \<in> set LEDGER_FIELDS \<Longrightarrow> map fst (add_unique r k v) = LEDGER_FIELDS"
  by (simp add: add_unique_def Let_def complete_update)

lemma ledger_field_names:
  "''site'' \<in> set LEDGER_FIELDS" "''first_seen_date'' \<in> set LEDGER_FIELDS"
  "''last_seen_date'' \<in> set LEDGER_FIELDS" "''seen_dates'' \<in> set LEDGER_FIELDS"
  "''days_seen'' \<in> set LEDGER_FIELDS" "''example_path'' \<in> set LEDGER_FIELDS"
  "''example_rel'' \<in> set LEDGER_FIELDS" "''example_url'' \<in> set LEDGER_FIELDS"
  "''advertiser_host'' \<in> set LEDGER_FIELDS" "''advertiser_domain'' \<in> set LEDGER_FIELDS"
  "''advertiser_hosts_all'' \<in> set LEDGER_FIELDS" "''advertiser_domains_all'' \<in> set LEDGER_FIELDS"
  "''source_host'' \<in> set LEDGER_FIELDS" "''iframe_host'' \<in> set LEDGER_FIELDS"
  "''page_domain'' \<in> set LEDGER_FIELDS" "''md5'' \<in> set LEDGER_FIELDS"
  "''phash'' \<in> set LEDGER_FIELDS" "''matches'' \<in> set LEDGER_FIELDS"
  by code_simp+

lemma complete_merge_dates:
  "map fst r = LEDGER_FIELDS \<Longrightarrow> map fst (merge_dates seen r) = LEDGER_FIELDS"
  by (simp add: merge_dates_def Let_def complete_update ledger_field_names)

lemma complete_merge_example:
  "map fst r = LEDGER_FIELDS \<Longrightarrow> map fst (merge_example env obs r) = LEDGER_FIELDS"
  by (simp add: merge_example_def Let_def complete_update ledger_field_names)

lemma complete_merge_attribution:
  "map fst r = LEDGER_FIELDS \<Longrightarrow> map fst (merge_attribution env obs r) = LEDGER_FIELDS"
  by (simp add: merge_attribution_def Let_def complete_update complete_add_unique
      ledger_field_names split: prod.splits)

lemma complete_merge_hosts:
  "map fst r = LEDGER_FIELDS \<Longrightarrow> map fst (merge_hosts env obs r) = LEDGER_FIELDS"
  by (simp add: merge_hosts_def Let_def complete_update ledger_field_names)

lemma complete_merge_row:
  assumes "map fst r = LEDGER_FIELDS"
  shows "map fst (merge_row env obs seen md5s ph mtype r) = LEDGER_FIELDS"
  unfolding merge_row_def refresh_prints_def
  by (intro complete_update complete_merge_hosts complete_merge_attribution
      complete_merge_example complete_merge_dates ledger_field_names assms)

lemma complete_new_row: "map fst (new_row obs seen bid md5s ph) = LEDGER_FIELDS"
  by (simp add: new_row_def LEDGER_FIELDS_def)

lemma schema_ok_set_row:
  assumes "schema_ok L" and "map fst r = LEDGER_FIELDS"
  shows "schema_ok (L\<lparr>rows := AList.update bid r (rows L)\<rparr>)"
  using assms set_update_subset [of bid r "rows L"] by (auto simp add: schema_ok_def)

lemma schema_ok_observe_image:
  assumes "schema_ok L"
  shows "schema_ok (snd (observe_image env L img_bytes obs))"
proof (cases "phash_hex env img_bytes")
  case (Inl e)
  with assms show ?thesis by (simp add: observe_image_def)
next
  case (Inr ph)
  let ?seen = "if truthy (seen_date obs) then the (seen_date obs) else today env"
  let ?md5s = "md5_short env img_bytes"
  obtain bid mtype L1 where sel: "select_record env L obs ?seen ?md5s ph = (bid, mtype, L1)"
    by (cases "select_record env L obs ?seen ?md5s ph")
  from select_record_cases [OF sel] assms have ok1: "schema_ok L1"
    by (auto intro!: schema_ok_set_row complete_new_row)
  show ?thesis
  proof (cases "map_of (rows L1) bid")
    case None
    with Inr sel ok1 show ?thesis by (simp add: observe_image_def Let_def)
  next
    case (Some r)
    then have "(bid, r) \<in> set (rows L1)" by (rule map_of_SomeD)
    with ok1 have "map fst r = LEDGER_FIELDS" by (auto simp add: schema_ok_def)
    then have "map fst (merge_row env obs ?seen ?md5s ph mtype r) = LEDGER_FIELDS"
      by (rule complete_merge_row)
    with ok1 have "schema_ok (L1\<lparr>rows := AList.update bid (merge_row env obs ?seen ?md5s ph mtype r) (rows L1)\<rparr>)"
      by (rule schema_ok_set_row)
    then show ?thesis
      using Inr sel Some by (simp add: observe_image_def Let_def schema_ok_def)
  qed
qed


















end
